theory Spec2Isabelle
  imports Main "HOL-Library.Char_ord" "HOL-Library.List_Lexorder"
begin

section \<open>Python values the code relies on\<close>

text \<open>
  Exceptions of the Python code are values: a function that can raise returns
  \<open>py_error + 'a\<close>, with \<open>Inl\<close> for the exception.
\<close>

datatype py_error =
    ValueError
  | IndexError
  | KeyError
  | AttributeError
  | TypeError
  | NotImplementedError
  | FileNotFoundError

text \<open>
  Strings are \<open>char list\<close>; \<open>HOL-Library.Char_ord\<close> orders characters by code
  and \<open>HOL-Library.List_Lexorder\<close> orders lists lexicographically, which is Python's
  comparison of \<^verbatim>\<open>str\<close> and of lists and tuples.
\<close>

text \<open>\<^verbatim>\<open>tok in s\<close> for strings: \<open>tok\<close> occurs in \<open>s\<close> as a contiguous substring.\<close>

fun str_contains :: "string \<Rightarrow> string \<Rightarrow> bool" where
  "str_contains tok [] = (tok = [])"
| "str_contains tok (c # cs) = (take (length tok) (c # cs) = tok \<or> str_contains tok cs)"

text \<open>\<^verbatim>\<open>s.split(sep)\<close> for a one-character separator: always at least one piece.\<close>

fun split_on :: "char \<Rightarrow> string \<Rightarrow> string list" where
  "split_on sep [] = [[]]"
| "split_on sep (c # cs) =
     (if c = sep then [] # split_on sep cs
      else (case split_on sep cs of [] \<Rightarrow> [[c]] | w # ws \<Rightarrow> (c # w) # ws))"

text \<open>\<^verbatim>\<open>sep.join(xs)\<close>.\<close>

fun join_with :: "char \<Rightarrow> string list \<Rightarrow> string" where
  "join_with sep [] = []"
| "join_with sep [x] = x"
| "join_with sep (x # y # ys) = x @ sep # join_with sep (y # ys)"

text \<open>
  \<^verbatim>\<open>s.rsplit(sep, 1)[0]\<close>: what stands before the last occurrence of \<open>sep\<close>, the
  whole string when \<open>sep\<close> does not occur.
\<close>

definition rsplit1_head :: "char \<Rightarrow> string \<Rightarrow> string" where
  "rsplit1_head sep s =
     (if sep \<in> set s then rev (tl (dropWhile (\<lambda>c. c \<noteq> sep) (rev s))) else s)"

text \<open>\<^verbatim>\<open>s.replace(old, "")\<close>: every occurrence of \<open>old\<close>, left to right, is removed.\<close>

function str_remove :: "string \<Rightarrow> string \<Rightarrow> string" where
  "str_remove old [] = []"
| "str_remove old (c # cs) =
     (if old \<noteq> [] \<and> take (length old) (c # cs) = old
      then str_remove old (drop (length old) (c # cs))
      else c # str_remove old cs)"
  by pat_completeness auto
termination
  by (relation "measure (\<lambda>(old, s). length s)") (auto simp: Suc_diff_le)

section \<open>pathlib paths\<close>

text \<open>
  A \<^verbatim>\<open>PurePosixPath\<close> is the list of its \<^verbatim>\<open>parts\<close>: the anchor (\<^verbatim>\<open>/\<close> or
  \<^verbatim>\<open>//\<close>) first when the path is absolute, then the components. Two paths are
  equal when their parts are, and are ordered as their lists of parts are.
\<close>

type_synonym pth = "string list"

definition is_anchor :: "string \<Rightarrow> bool" where
  "is_anchor a = (a = ''/'' \<or> a = ''//'')"

text \<open>\<^verbatim>\<open>Path(s)\<close>: empty components and \<^verbatim>\<open>.\<close> are dropped.\<close>

definition Path :: "string \<Rightarrow> pth" where
  "Path s =
     (if take 2 s = ''//'' \<and> take 3 s \<noteq> ''///'' then [''//'']
      else if take 1 s = ''/'' then [''/''] else [])
     @ filter (\<lambda>x. x \<noteq> [] \<and> x \<noteq> ''.'') (split_on CHR ''/'' s)"

text \<open>\<^verbatim>\<open>str(p)\<close>.\<close>

definition py_str :: "pth \<Rightarrow> string" where
  "py_str p =
     (case p of [] \<Rightarrow> ''.''
      | a # r \<Rightarrow> if is_anchor a then a @ join_with CHR ''/'' r
                 else join_with CHR ''/'' (a # r))"

text \<open>\<^verbatim>\<open>p.name\<close>: the last component, empty for the anchor alone and for the empty path.\<close>

definition name :: "pth \<Rightarrow> string" where
  "name p = (if p = [] \<or> is_anchor (last p) then [] else last p)"

text \<open>\<^verbatim>\<open>p.stem\<close>: the name without its last suffix.\<close>

definition stem_of :: "string \<Rightarrow> string" where
  "stem_of n =
     (if CHR ''.'' \<in> set n
      then (let pre = rev (tl (dropWhile (\<lambda>c. c \<noteq> CHR ''.'') (rev n)));
                suf = rev (takeWhile (\<lambda>c. c \<noteq> CHR ''.'') (rev n))
            in if pre = [] \<or> suf = [] then n else pre)
      else n)"

definition stem :: "pth \<Rightarrow> string" where
  "stem p = stem_of (name p)"

text \<open>\<^verbatim>\<open>p.relative_to(other)\<close>: raises ValueError when \<open>other\<close> is not a prefix of \<open>p\<close>.\<close>

definition relative_to :: "pth \<Rightarrow> pth \<Rightarrow> py_error + pth" where
  "relative_to p other =
     (if take (length other) p = other then Inr (drop (length other) p) else Inl ValueError)"

text \<open>
  \<^verbatim>\<open>p.with_name(n)\<close>: raises ValueError when \<open>p\<close> has no name, and when \<open>n\<close> is
  empty, is \<^verbatim>\<open>.\<close> or contains the separator.
\<close>

definition with_name :: "pth \<Rightarrow> string \<Rightarrow> py_error + pth" where
  "with_name p n =
     (if name p = [] \<or> n = [] \<or> n = ''.'' \<or> CHR ''/'' \<in> set n then Inl ValueError
      else Inr (butlast p @ [n]))"

text \<open>A list comprehension over a call that can raise: the first exception wins.\<close>

fun try_map :: "('a \<Rightarrow> py_error + 'b) \<Rightarrow> 'a list \<Rightarrow> py_error + 'b list" where
  "try_map f [] = Inr []"
| "try_map f (x # xs) =
     (case f x of Inl e \<Rightarrow> Inl e
      | Inr y \<Rightarrow> (case try_map f xs of Inl e \<Rightarrow> Inl e | Inr ys \<Rightarrow> Inr (y # ys)))"

section \<open>natsort\<close>

text \<open>
  \<^verbatim>\<open>natsorted(xs, key=k)\<close> with the default algorithm sorts stably by the key that
  cuts \<open>k x\<close> into its maximal runs of digits, read as numbers, and the text between
  them. A key starts with a text chunk: the empty text is put in front of a leading
  number. So two keys are compared text with text and number with number.
\<close>

datatype chunk = Txt string | Num nat

instantiation chunk :: linorder
begin

fun less_eq_chunk :: "chunk \<Rightarrow> chunk \<Rightarrow> bool" where
  "less_eq_chunk (Txt s) (Txt t) = (s \<le> t)"
| "less_eq_chunk (Num m) (Num n) = (m \<le> n)"
| "less_eq_chunk (Txt s) (Num n) = True"
| "less_eq_chunk (Num m) (Txt t) = False"

definition less_chunk :: "chunk \<Rightarrow> chunk \<Rightarrow> bool" where
  "less_chunk a b = (a \<le> b \<and> \<not> b \<le> a)"

instance
proof
  fix x y z :: chunk
  show "(x < y) = (x \<le> y \<and> \<not> y \<le> x)" by (simp add: less_chunk_def)
  show "x \<le> x" by (cases x) simp_all
  show "x \<le> y \<Longrightarrow> y \<le> z \<Longrightarrow> x \<le> z" by (cases x; cases y; cases z) auto
  show "x \<le> y \<Longrightarrow> y \<le> x \<Longrightarrow> x = y" by (cases x; cases y) auto
  show "x \<le> y \<or> y \<le> x" by (cases x; cases y) auto
qed

end

definition is_digit :: "char \<Rightarrow> bool" where
  "is_digit c = (CHR ''0'' \<le> c \<and> c \<le> CHR ''9'')"

text \<open>\<^verbatim>\<open>int(ds)\<close> for a string of decimal digits.\<close>

definition int_of_digits :: "string \<Rightarrow> nat" where
  "int_of_digits ds = foldl (\<lambda>acc c. 10 * acc + (of_char c - 48)) 0 ds"

function chunks :: "string \<Rightarrow> chunk list" where
  "chunks [] = []"
| "chunks (c # cs) =
     (if is_digit c
      then Num (int_of_digits (c # takeWhile is_digit cs)) # chunks (dropWhile is_digit cs)
      else Txt (c # takeWhile (\<lambda>d. \<not> is_digit d) cs)
             # chunks (dropWhile (\<lambda>d. \<not> is_digit d) cs))"
  by pat_completeness auto
termination
  by (relation "measure length") (auto simp: less_Suc_eq_le length_dropWhile_le)

definition natsort_key :: "string \<Rightarrow> chunk list" where
  "natsort_key s = (case chunks s of Num n # ks \<Rightarrow> Txt [] # Num n # ks | ks \<Rightarrow> ks)"

definition natsorted :: "('a \<Rightarrow> string) \<Rightarrow> 'a list \<Rightarrow> 'a list" where
  "natsorted k xs = sort_key (\<lambda>x. natsort_key (k x)) xs"

section \<open>The file manager\<close>

text \<open>
  The directory tree is outside the program. It is a parameter: \<open>fs recursive root pat\<close>
  lists what the scan of \<^verbatim>\<open>Path(root).rglob(pat)\<close> (\<open>recursive\<close>) or
  \<^verbatim>\<open>Path(root).glob(pat)\<close> yields, each match as its components below \<open>root\<close>, in the
  order of the directory scan. pathlib returns each match as the root path extended
  by these components, and yields nothing for a root that does not exist.
\<close>

type_synonym filesystem = "bool \<Rightarrow> string \<Rightarrow> string \<Rightarrow> string list list"

text \<open>
  Before it scans, pathlib (Python 3.10 to 3.12) refuses a pattern: \<^verbatim>\<open>glob\<close> raises
  ValueError for the empty pattern, both raise NotImplementedError for a pattern that
  starts at the root, and ValueError for a component that holds \<^verbatim>\<open>**\<close> without being
  \<^verbatim>\<open>**\<close>. The list of a generator is taken at once, so \<^verbatim>\<open>collect_files\<close> raises.
\<close>

definition pattern_parts :: "string \<Rightarrow> string list" where
  "pattern_parts pat = filter (\<lambda>x. x \<noteq> [] \<and> x \<noteq> ''.'') (split_on CHR ''/'' pat)"

definition glob_error :: "bool \<Rightarrow> string \<Rightarrow> py_error option" where
  "glob_error rec pat =
     (if \<not> rec \<and> pat = [] then Some ValueError
      else if take 1 pat = ''/'' then Some NotImplementedError
      else if list_ex (\<lambda>part. str_contains ''**'' part \<and> part \<noteq> ''**'') (pattern_parts pat)
        then Some ValueError
      else None)"

definition glob :: "filesystem \<Rightarrow> string \<Rightarrow> string \<Rightarrow> py_error + pth list" where
  "glob fs root pat =
     (case glob_error False pat of
        Some e \<Rightarrow> Inl e
      | None \<Rightarrow> Inr (map (\<lambda>rel. Path root @ rel) (fs False root pat)))"

definition rglob :: "filesystem \<Rightarrow> string \<Rightarrow> string \<Rightarrow> py_error + pth list" where
  "rglob fs root pat =
     (case glob_error True pat of
        Some e \<Rightarrow> Inl e
      | None \<Rightarrow> Inr (map (\<lambda>rel. Path root @ rel) (fs True root pat)))"

record FileManager =
  path :: string
  file_type :: string
  pattern :: "string option"
  include_names :: "string list option"
  exclude_names :: "string list option"
  recursive :: bool
  files :: "pth list"

text \<open>The glob pattern of \<^verbatim>\<open>FileManager.collect_files\<close>, before the extension is appended.\<close>

definition effective_pattern :: "string option \<Rightarrow> string" where
  "effective_pattern pat =
     (case pat of None \<Rightarrow> ''*''
      | Some p \<Rightarrow> if CHR ''*'' \<notin> set p then ''*'' @ p else p)"

definition collect_files :: "filesystem \<Rightarrow> FileManager \<Rightarrow> py_error + FileManager" where
  "collect_files fs fm =
     (if file_type fm = [] \<or> path fm = [] then Inr (fm\<lparr>files := []\<rparr>)
      else
        let pat = effective_pattern (pattern fm)
        in case (if recursive fm then rglob fs (path fm) (pat @ file_type fm)
                 else glob fs (path fm) (pat @ file_type fm)) of
             Inl e \<Rightarrow> Inl e
           | Inr found \<Rightarrow> Inr (fm\<lparr>files := natsorted name found\<rparr>))"

text \<open>The paths of \<^verbatim>\<open>self.files\<close> relative to \<^verbatim>\<open>self.path\<close>, as strings.\<close>

definition files_re :: "FileManager \<Rightarrow> py_error + string list" where
  "files_re fm =
     try_map (\<lambda>f. case relative_to f (Path (path fm)) of
                     Inl e \<Rightarrow> Inl e | Inr r \<Rightarrow> Inr (py_str r)) (files fm)"

definition any_in :: "string list \<Rightarrow> string \<Rightarrow> bool" where
  "any_in toks rel = (\<exists>tok \<in> set toks. str_contains tok rel)"

definition filter_include :: "FileManager \<Rightarrow> py_error + FileManager" where
  "filter_include fm =
     (case include_names fm of None \<Rightarrow> Inr fm
      | Some inc \<Rightarrow>
          (case files_re fm of Inl e \<Rightarrow> Inl e
           | Inr rels \<Rightarrow>
               Inr (fm\<lparr>files := map fst (filter (\<lambda>(f, rel). any_in inc rel)
                                              (zip (files fm) rels))\<rparr>)))"

definition filter_exclude :: "FileManager \<Rightarrow> py_error + FileManager" where
  "filter_exclude fm =
     (case exclude_names fm of None \<Rightarrow> Inr fm
      | Some exc \<Rightarrow>
          (case files_re fm of Inl e \<Rightarrow> Inl e
           | Inr rels \<Rightarrow>
               Inr (fm\<lparr>files := map fst (filter (\<lambda>(f, rel). \<not> any_in exc rel)
                                              (zip (files fm) rels))\<rparr>)))"

definition filter_files :: "FileManager \<Rightarrow> py_error + FileManager" where
  "filter_files fm =
     (case filter_include fm of Inl e \<Rightarrow> Inl e | Inr fm1 \<Rightarrow> filter_exclude fm1)"

text \<open>\<^verbatim>\<open>FileManager.__init__\<close>: the fields are stored, then the files collected and filtered.\<close>

definition FileManager_init ::
  "filesystem \<Rightarrow> string \<Rightarrow> string \<Rightarrow> string option \<Rightarrow> string list option
     \<Rightarrow> string list option \<Rightarrow> bool \<Rightarrow> py_error + FileManager" where
  "FileManager_init fs p ft pat inc exc r =
     (case collect_files fs
             \<lparr>path = p, file_type = ft, pattern = pat, include_names = inc,
              exclude_names = exc, recursive = r, files = []\<rparr> of
        Inl e \<Rightarrow> Inl e
      | Inr fm \<Rightarrow> filter_files fm)"

text \<open>The argument \<^verbatim>\<open>file: str | int\<close> of the name functions.\<close>

datatype file_arg = FileStr string | FileInt int

text \<open>\<^verbatim>\<open>self.files[i]\<close>: a negative index counts from the end, out of range raises.\<close>

definition files_at :: "FileManager \<Rightarrow> int \<Rightarrow> py_error + pth" where
  "files_at fm i =
     (let n = int (length (files fm)); j = (if i < 0 then n + i else i)
      in if 0 \<le> j \<and> j < n then Inr (files fm ! nat j) else Inl IndexError)"

definition name_from_path :: "FileManager \<Rightarrow> file_arg \<Rightarrow> bool \<Rightarrow> py_error + string" where
  "name_from_path fm file include_ext =
     (case (case file of
              FileInt i \<Rightarrow> (case files_at fm i of Inl e \<Rightarrow> Inl e | Inr p \<Rightarrow> Inr (py_str p))
            | FileStr s \<Rightarrow> Inr s) of
        Inl e \<Rightarrow> Inl e
      | Inr s \<Rightarrow>
          (case relative_to (Path s) (Path (path fm)) of
             Inl e \<Rightarrow> Inl e
           | Inr r \<Rightarrow>
               Inr (if \<not> include_ext then str_remove (file_type fm) (py_str r)
                    else py_str r)))"

definition get_name :: "FileManager \<Rightarrow> file_arg \<Rightarrow> bool \<Rightarrow> py_error + string" where
  "get_name fm file with_file_type = name_from_path fm file with_file_type"

text \<open>
  \<^verbatim>\<open>np.unique\<close> on a list of paths: sorted by the paths' own order, duplicates removed.
\<close>

definition np_unique :: "pth list \<Rightarrow> pth list" where
  "np_unique ps = remdups_adj (sort ps)"

text \<open>The entry a stacked file collapses to: \<^verbatim>\<open>file.with_name(file.stem.rsplit("_", 1)[0])\<close>.\<close>

definition stack_entry :: "pth \<Rightarrow> py_error + pth" where
  "stack_entry file = with_name file (rsplit1_head CHR ''_'' (stem file))"

text \<open>\<^verbatim>\<open>FileManagerStacked.collect_files\<close>.\<close>

definition FileManagerStacked_collect_files ::
  "filesystem \<Rightarrow> FileManager \<Rightarrow> py_error + FileManager" where
  "FileManagerStacked_collect_files fs fm =
     (case collect_files fs fm of
        Inl e \<Rightarrow> Inl e
      | Inr fm1 \<Rightarrow>
          if files fm1 \<noteq> [] then
            (case try_map stack_entry (files fm1) of
               Inl e \<Rightarrow> Inl e
             | Inr fl \<Rightarrow> Inr (fm1\<lparr>files := natsorted name (np_unique fl)\<rparr>))
          else Inr fm1)"

definition FileManagerStacked_init ::
  "filesystem \<Rightarrow> string \<Rightarrow> string \<Rightarrow> string option \<Rightarrow> string list option
     \<Rightarrow> string list option \<Rightarrow> bool \<Rightarrow> py_error + FileManager" where
  "FileManagerStacked_init fs p ft pat inc exc r =
     (case FileManagerStacked_collect_files fs
             \<lparr>path = p, file_type = ft, pattern = pat, include_names = inc,
              exclude_names = exc, recursive = r, files = []\<rparr> of
        Inl e \<Rightarrow> Inl e
      | Inr fm \<Rightarrow> filter_files fm)"

text \<open>
  What the properties below speak about: a file lies under the manager's root when
  \<^verbatim>\<open>relative_to\<close> succeeds on it, and \<open>rel_name\<close> is then the string the filters test.
\<close>

definition under_root :: "FileManager \<Rightarrow> pth \<Rightarrow> bool" where
  "under_root fm f = (take (length (Path (path fm))) f = Path (path fm))"

definition rel_name :: "FileManager \<Rightarrow> pth \<Rightarrow> string" where
  "rel_name fm f = py_str (drop (length (Path (path fm))) f)"

text \<open>The manager of the include/exclude example.\<close>

definition fm_x :: FileManager where
  "fm_x = \<lparr>path = ''data'', file_type = ''.ext'', pattern = None,
           include_names = Some [''x''], exclude_names = Some [''val''], recursive = False,
           files = [[''data'', ''x_train.ext''], [''data'', ''x_val.ext'']]\<rparr>"

text \<open>A small directory tree and managers over it, for the examples.\<close>

definition fs_ex :: filesystem where
  "fs_ex r root pat =
     (if root = ''data'' \<and> pat = ''*.ext'' then [[''a_10.ext''], [''a_2.ext'']]
      else if root = ''data'' \<and> pat = ''*_0000.png'' then [[''s_0000.png'']]
      else if root = ''stack'' \<and> pat = ''*.png''
        then [[''s10_0001.png''], [''s2_0000.png''], [''s10_0000.png''],
              [''scan_final.png''], [''plain.png''], [''s2_0001.png'']]
      else [])"


definition fm_p :: FileManager where
  "fm_p = \<lparr>path = ''data'', file_type = ''.png'', pattern = Some ''_0000'',
           include_names = None, exclude_names = None, recursive = False, files = []\<rparr>"

section \<open>NumPy archives\<close>

text \<open>
  A NumPy array is its contents, any type \<open>'a\<close>, and whether its dtype holds Python
  objects: such an array can only be written and read as a pickle.
\<close>

datatype 'a ndarray = Numeric 'a | Object 'a

text \<open>
  A dictionary of arrays, and an \<^verbatim>\<open>.npz\<close> archive, is the list of its keys and arrays in
  order, one entry per key. The files on disk are a store from file names to archives.
\<close>

type_synonym 'a archive = "(string \<times> 'a ndarray) list"

type_synonym 'a store = "string \<rightharpoonup> 'a archive"

text \<open>The first argument of \<^verbatim>\<open>save_npz\<close>: a dictionary of arrays, or anything else.\<close>

datatype 'a npz_data = Dict "'a archive" | Array "'a ndarray"

function str_of_nat :: "nat \<Rightarrow> string" where
  "str_of_nat n =
     (if n < 10 then [char_of (48 + n)]
      else str_of_nat (n div 10) @ [char_of (48 + n mod 10)])"
  by pat_completeness auto
termination
  by (relation "measure id") auto

declare str_of_nat.simps [simp del]

text \<open>
  \<^verbatim>\<open>np.savez(file, *args, allow_pickle=True, **kwds)\<close> and \<^verbatim>\<open>np.savez_compressed\<close> with
  the same parameters (NumPy 2) differ in the bytes written only. They append
  \<^verbatim>\<open>.npz\<close> to a file name that does not end in it, name the positional arrays
  \<^verbatim>\<open>arr_0\<close>, \<^verbatim>\<open>arr_1\<close>, ... and refuse such a name that is a keyword already, and
  write each array in turn; an array of Python objects is written only if
  \<^verbatim>\<open>allow_pickle\<close> is true. The truth value of an array that is passed for that flag
  is the parameter \<open>truthy\<close>.
\<close>

definition npz_filename :: "string \<Rightarrow> string" where
  "npz_filename file =
     (if drop (length file - 4) file = ''.npz'' then file else file @ ''.npz'')"

fun name_args :: "nat \<Rightarrow> 'a ndarray list \<Rightarrow> 'a archive \<Rightarrow> py_error + 'a archive" where
  "name_args i [] namedict = Inr namedict"
| "name_args i (v # vs) namedict =
     (let key = ''arr_'' @ str_of_nat i
      in if map_of namedict key \<noteq> None then Inl ValueError
         else name_args (Suc i) vs (namedict @ [(key, v)]))"

definition write_array ::
  "('a ndarray \<Rightarrow> py_error + bool) \<Rightarrow> 'a ndarray option \<Rightarrow> string \<times> 'a ndarray
     \<Rightarrow> py_error + string \<times> 'a ndarray" where
  "write_array truthy allow_pickle member =
     (case snd member of
        Numeric a \<Rightarrow> Inr member
      | Object a \<Rightarrow>
          (case allow_pickle of
             None \<Rightarrow> Inr member
           | Some flag \<Rightarrow>
               (case truthy flag of
                  Inl e \<Rightarrow> Inl e
                | Inr ok \<Rightarrow> if ok then Inr member else Inl ValueError)))"

definition np_savez ::
  "('a ndarray \<Rightarrow> py_error + bool) \<Rightarrow> string \<Rightarrow> 'a ndarray list \<Rightarrow> 'a ndarray option
     \<Rightarrow> 'a archive \<Rightarrow> 'a store \<Rightarrow> py_error + 'a store" where
  "np_savez truthy file args allow_pickle kwds st =
     (case name_args 0 args kwds of
        Inl e \<Rightarrow> Inl e
      | Inr namedict \<Rightarrow>
          (case try_map (write_array truthy allow_pickle) namedict of
             Inl e \<Rightarrow> Inl e
           | Inr members \<Rightarrow> Inr (st(npz_filename file \<mapsto> members))))"

definition np_savez_compressed ::
  "('a ndarray \<Rightarrow> py_error + bool) \<Rightarrow> string \<Rightarrow> 'a ndarray list \<Rightarrow> 'a ndarray option
     \<Rightarrow> 'a archive \<Rightarrow> 'a store \<Rightarrow> py_error + 'a store" where
  "np_savez_compressed truthy file args allow_pickle kwds st =
     (case name_args 0 args kwds of
        Inl e \<Rightarrow> Inl e
      | Inr namedict \<Rightarrow>
          (case try_map (write_array truthy allow_pickle) namedict of
             Inl e \<Rightarrow> Inl e
           | Inr members \<Rightarrow> Inr (st(npz_filename file \<mapsto> members))))"

text \<open>
  The call \<^verbatim>\<open>np.savez(path, **data_dict)\<close>: Python raises TypeError for the key
  \<^verbatim>\<open>file\<close>, the parameter that \<^verbatim>\<open>path\<close> fills already, and takes the key
  \<^verbatim>\<open>allow_pickle\<close> for the parameter of that name; the other keys are the keywords.
\<close>

definition bind_kwargs :: "'a archive \<Rightarrow> py_error + ('a ndarray option \<times> 'a archive)" where
  "bind_kwargs d =
     (if map_of d ''file'' \<noteq> None then Inl TypeError
      else Inr (map_of d ''allow_pickle'', filter (\<lambda>kv. fst kv \<noteq> ''allow_pickle'') d))"

text \<open>\<^verbatim>\<open>save_npz(data_dict, path, compress)\<close>: the store after the call.\<close>

definition save_npz ::
  "('a ndarray \<Rightarrow> py_error + bool) \<Rightarrow> 'a npz_data \<Rightarrow> string \<Rightarrow> bool \<Rightarrow> 'a store
     \<Rightarrow> py_error + 'a store" where
  "save_npz truthy data_dict p compress st =
     (if compress then
        (case data_dict of
           Dict d \<Rightarrow>
             (case bind_kwargs d of
                Inl e \<Rightarrow> Inl e
              | Inr (allow_pickle, kwds) \<Rightarrow> np_savez_compressed truthy p [] allow_pickle kwds st)
         | Array a \<Rightarrow> np_savez_compressed truthy p [a] None [] st)
      else
        (case data_dict of
           Dict d \<Rightarrow>
             (case bind_kwargs d of
                Inl e \<Rightarrow> Inl e
              | Inr (allow_pickle, kwds) \<Rightarrow> np_savez truthy p [] allow_pickle kwds st)
         | Array a \<Rightarrow> np_savez truthy p [a] None [] st))"

text \<open>
  \<^verbatim>\<open>load_npz(path)\<close>: the dictionary of the archive's arrays and the empty metadata.
  \<^verbatim>\<open>np.load\<close> raises for a file that is not there, and, called without
  \<^verbatim>\<open>allow_pickle\<close>, reading an array of Python objects raises ValueError.
\<close>

definition read_array :: "string \<times> 'a ndarray \<Rightarrow> py_error + string \<times> 'a ndarray" where
  "read_array member =
     (case snd member of Numeric a \<Rightarrow> Inr member | Object a \<Rightarrow> Inl ValueError)"

definition load_npz ::
  "string \<Rightarrow> 'a store \<Rightarrow> py_error + ('a archive \<times> (string \<times> string) list)" where
  "load_npz p st =
     (case st p of
        None \<Rightarrow> Inl FileNotFoundError
      | Some data \<Rightarrow>
          (case try_map read_array data of
             Inl e \<Rightarrow> Inl e
           | Inr items \<Rightarrow> Inr (items, [])))"

text \<open>Whether an array's dtype holds Python objects, and a truth value for the examples.\<close>

fun is_object :: "'a ndarray \<Rightarrow> bool" where
  "is_object (Object a) = True"
| "is_object (Numeric a) = False"

definition truthy_ex :: "int list ndarray \<Rightarrow> py_error + bool" where
  "truthy_ex v =
     (case v of
        Numeric [x] \<Rightarrow> Inr (x \<noteq> 0)
      | Object [x] \<Rightarrow> Inr (x \<noteq> 0)
      | _ \<Rightarrow> Inl ValueError)"

section \<open>Configuration verification\<close>

text \<open>
  The values of a loaded configuration and of a loaded split file. A mapping is a list
  of key/value pairs with one pair per key.
\<close>

datatype cfgval =
    VNone
  | VBool bool
  | VInt int
  | VStr string
  | VList "cfgval list"
  | VDict "(string \<times> cfgval) list"

type_synonym cfgdict = "(string \<times> cfgval) list"

text \<open>\<^verbatim>\<open>k in d\<close>, \<^verbatim>\<open>d.get(k, default)\<close>, \<^verbatim>\<open>d[k]\<close> and \<^verbatim>\<open>d[k] = v\<close>.\<close>

definition has_key :: "string \<Rightarrow> cfgdict \<Rightarrow> bool" where
  "has_key k d = (map_of d k \<noteq> None)"

definition dict_get :: "cfgdict \<Rightarrow> string \<Rightarrow> cfgval \<Rightarrow> cfgval" where
  "dict_get d k dflt = (case map_of d k of None \<Rightarrow> dflt | Some v \<Rightarrow> v)"

definition dict_item :: "cfgdict \<Rightarrow> string \<Rightarrow> py_error + cfgval" where
  "dict_item d k = (case map_of d k of None \<Rightarrow> Inl KeyError | Some v \<Rightarrow> Inr v)"


text \<open>\<^verbatim>\<open>isinstance(v, str)\<close> and \<^verbatim>\<open>isinstance(v, int)\<close>; a Python bool is an int.\<close>

fun isinstance_str :: "cfgval \<Rightarrow> bool" where
  "isinstance_str (VStr s) = True"
| "isinstance_str v = False"

fun isinstance_int :: "cfgval \<Rightarrow> bool" where
  "isinstance_int (VInt i) = True"
| "isinstance_int (VBool b) = True"
| "isinstance_int v = False"

definition IMAGE_TYPES :: "cfgval list" where
  "IMAGE_TYPES = [VStr ''Image'']"

definition LABEL_TYPES :: "cfgval list" where
  "LABEL_TYPES = [VStr ''Labels'', VStr ''SemSeg'', VStr ''MultiLabel'']"

definition VALID_SPLITS :: "string list" where
  "VALID_SPLITS = [''train'', ''val'', ''test'']"

text \<open>
  The messages \<^verbatim>\<open>verify_layer\<close> collects, one constructor per message of the source; a
  message about a missing field carries the field, the values a message prints are
  left out.
\<close>

datatype layer_error =
    Missing string
  | BadName
  | BadPath
  | BadFileType
  | BadChannels
  | BadClasses
  | UnknownType
  | BadPattern

definition missing :: "string list \<Rightarrow> cfgdict \<Rightarrow> layer_error list" where
  "missing reqs layer_cfg = map Missing (filter (\<lambda>req. \<not> has_key req layer_cfg) reqs)"

definition verify_layer :: "cfgdict \<Rightarrow> py_error + (bool \<times> layer_error list)" where
  "verify_layer layer_cfg =
     (let req_all = [''name'', ''type'', ''path'', ''file_type''];
          req_img = [''channels''];
          req_lbl = [''classes''];
          get = (\<lambda>k. dict_get layer_cfg k VNone);
          errs = missing req_all layer_cfg
            @ (if \<not> isinstance_str (get ''name'') \<or> get ''name'' = VStr [] then [BadName] else [])
            @ (if \<not> isinstance_str (get ''path'') then [BadPath] else [])
            @ (if \<not> isinstance_str (get ''file_type'') \<or> get ''file_type'' = VStr []
               then [BadFileType] else []);
          typed =
            (if get ''type'' \<in> set IMAGE_TYPES then
               Inr (errs @ missing req_img layer_cfg
                      @ (if \<not> isinstance_int (get ''channels'') then [BadChannels] else []))
             else if get ''type'' \<in> set LABEL_TYPES then
               Inr (errs @ concat (map (\<lambda>req. missing [req] layer_cfg
                      @ (if \<not> isinstance_int (get ''classes'') then [BadClasses] else []))
                    req_lbl))
             else
               (case dict_item layer_cfg ''type'' of
                  Inl e \<Rightarrow> Inl e
                | Inr ty \<Rightarrow> Inr (errs @ [UnknownType])))
      in case typed of
           Inl e \<Rightarrow> Inl e
         | Inr errs1 \<Rightarrow>
             (let errs2 = errs1
                    @ (if has_key ''pattern'' layer_cfg \<and> get ''pattern'' \<noteq> VNone
                          \<and> \<not> isinstance_str (get ''pattern'')
                       then [BadPattern] else [])
              in Inr (errs2 = [], errs2)))"

text \<open>
  \<^verbatim>\<open>verify_config\<close>, the split file: \<open>loaded\<close> is what \<^verbatim>\<open>load_json\<close> returned, \<open>None\<close>
  when no split file is configured. The result is \<^verbatim>\<open>(_splits, folds)\<close>, and the loop
  runs over \<^verbatim>\<open>range(folds)\<close>.
\<close>

definition load_splits :: "cfgval option \<Rightarrow> cfgval list option \<times> nat" where
  "load_splits loaded =
     (case loaded of
        Some v \<Rightarrow>
          (let splits = (case v of VList xs \<Rightarrow> xs | _ \<Rightarrow> [v]) in (Some splits, length splits))
      | None \<Rightarrow> (None, 1))"

definition fold_range :: "cfgval option \<Rightarrow> nat list" where
  "fold_range loaded = [0 ..< snd (load_splits loaded)]"










text \<open>
  Modelled from the spec: the fold selection of the Layer Config Resolver. The code
  that takes a fold index from the caller (\<^verbatim>\<open>build_file_manager\<close> with
  \<^verbatim>\<open>splits_index\<close>, \<^verbatim>\<open>LayerConfigManager\<close>) is not among the sources; the spec says
  that a split file that is a single mapping is one fold, that the fold index
  defaults to 0, and that a fold index out of range is the hard error
  \<^verbatim>\<open>FoldIndexOutOfRange\<close>.
\<close>

datatype resolve_error = FoldIndexOutOfRange

definition select_fold :: "cfgval \<Rightarrow> int option \<Rightarrow> resolve_error + cfgval" where
  "select_fold loaded fold_index =
     (let folds = (case loaded of VList xs \<Rightarrow> xs | _ \<Rightarrow> [loaded]);
          i = (case fold_index of None \<Rightarrow> 0 | Some i \<Rightarrow> i)
      in if 0 \<le> i \<and> i < int (length folds) then Inr (folds ! nat i)
         else Inl FoldIndexOutOfRange)"

text \<open>Layers and split files for the examples.\<close>

definition layer_no_type :: cfgdict where
  "layer_no_type =
     [(''name'', VStr ''Images''), (''path'', VStr ''data/images''),
      (''file_type'', VStr ''.png''), (''channels'', VInt 3)]"

definition layer_img :: cfgdict where
  "layer_img =
     [(''name'', VStr ''Images''), (''type'', VStr ''Image''), (''path'', VStr ''data/images''),
      (''file_type'', VStr ''.png''), (''channels'', VInt 3)]"

definition splits_one :: cfgval where
  "splits_one = VDict [(''train'', VList [VStr ''_0'', VStr ''_2''])]"

definition fm_s :: FileManager where
  "fm_s = \<lparr>path = ''stack'', file_type = ''.png'', pattern = None,
           include_names = None, exclude_names = None, recursive = False, files = []\<rparr>"

text \<open>
  The shape of a natural key: text and number chunks alternate; \<open>alternating b ks\<close>
  says so for \<open>ks\<close>, with a text chunk first when \<open>b\<close> holds.
\<close>

fun alternating :: "bool \<Rightarrow> chunk list \<Rightarrow> bool" where
  "alternating b [] = True"
| "alternating b (Txt s # ks) = (b \<and> alternating False ks)"
| "alternating b (Num n # ks) = (\<not> b \<and> alternating True ks)"


section \<open>Properties\<close>

subsection \<open>Locating and filtering files\<close>

lemma try_map_total:
  "(\<And>x. x \<in> set xs \<Longrightarrow> f x = Inr (g x)) \<Longrightarrow> try_map f xs = Inr (map g xs)"
  by (induction xs) simp_all

lemma filter_zip_map:
  "map fst (filter (\<lambda>(f, rel). P rel) (zip xs (map g xs))) = filter (\<lambda>f. P (g f)) xs"
  by (induction xs) simp_all

lemma rel_name_files_update [simp]: "rel_name (fm\<lparr>files := xs\<rparr>) f = rel_name fm f"
  by (simp add: rel_name_def)

lemma under_root_files_update [simp]: "under_root (fm\<lparr>files := xs\<rparr>) f = under_root fm f"
  by (simp add: under_root_def)

lemma files_re_under_root:
  assumes "\<forall>f \<in> set (files fm). under_root fm f"
  shows "files_re fm = Inr (map (rel_name fm) (files fm))"
  unfolding files_re_def
  by (rule try_map_total) (use assms in \<open>simp add: relative_to_def under_root_def rel_name_def\<close>)

lemma filter_include_under_root:
  assumes "\<forall>f \<in> set (files fm). under_root fm f"
  shows "filter_include fm =
    Inr (fm\<lparr>files := filter (\<lambda>f. case include_names fm of None \<Rightarrow> True
                                  | Some inc \<Rightarrow> any_in inc (rel_name fm f)) (files fm)\<rparr>)"
  by (cases "include_names fm")
     (simp_all add: filter_include_def files_re_under_root [OF assms] filter_zip_map)

lemma filter_exclude_under_root:
  assumes "\<forall>f \<in> set (files fm). under_root fm f"
  shows "filter_exclude fm =
    Inr (fm\<lparr>files := filter (\<lambda>f. case exclude_names fm of None \<Rightarrow> True
                                  | Some exc \<Rightarrow> \<not> any_in exc (rel_name fm f)) (files fm)\<rparr>)"
  by (cases "exclude_names fm")
     (simp_all add: filter_exclude_def files_re_under_root [OF assms] filter_zip_map)

lemma filter_files_under_root:
  assumes "\<forall>f \<in> set (files fm). under_root fm f"
  shows "filter_files fm =
    Inr (fm\<lparr>files := filter
      (\<lambda>f. (case include_names fm of None \<Rightarrow> True | Some inc \<Rightarrow> any_in inc (rel_name fm f))
          \<and> (case exclude_names fm of None \<Rightarrow> True | Some exc \<Rightarrow> \<not> any_in exc (rel_name fm f)))
      (files fm)\<rparr>)"
proof -
  let ?P = "\<lambda>f. case include_names fm of None \<Rightarrow> True | Some inc \<Rightarrow> any_in inc (rel_name fm f)"
  let ?fm1 = "fm\<lparr>files := filter ?P (files fm)\<rparr>"
  have inc: "filter_include fm = Inr ?fm1"
    by (rule filter_include_under_root [OF assms])
  have "\<forall>f \<in> set (files ?fm1). under_root ?fm1 f"
    using assms by simp
  from filter_exclude_under_root [OF this]
  have "filter_exclude ?fm1 = Inr (fm\<lparr>files := filter
      (\<lambda>f. case exclude_names fm of None \<Rightarrow> True | Some exc \<Rightarrow> \<not> any_in exc (rel_name fm f))
      (filter ?P (files fm))\<rparr>)"
    by (simp cong: option.case_cong)
  with inc show ?thesis
    by (simp add: filter_files_def conj_commute)
qed

lemma set_natsorted [simp]: "set (natsorted k xs) = set xs"
  by (simp add: natsorted_def)

lemma sorted_natsorted: "sorted (map (\<lambda>x. natsort_key (k x)) (natsorted k xs))"
  by (simp add: natsorted_def sorted_sort_key)

lemma collect_files_cases:
  "collect_files fs fm =
     (if file_type fm = [] \<or> path fm = [] then Inr (fm\<lparr>files := []\<rparr>)
      else case glob_error (recursive fm) (effective_pattern (pattern fm) @ file_type fm) of
             Some e \<Rightarrow> Inl e
           | None \<Rightarrow>
               Inr (fm\<lparr>files := natsorted name (map (\<lambda>rel. Path (path fm) @ rel)
                 (fs (recursive fm) (path fm)
                    (effective_pattern (pattern fm) @ file_type fm)))\<rparr>))"
  by (simp add: collect_files_def Let_def glob_def rglob_def split: option.splits)


text \<open>
  C2. The post-filter keeps a file exactly when (no include list is given, or its path
  relative to the root contains one of the include substrings) and (no exclude list is
  given, or that relative path contains none of the exclude substrings); the order of
  the files and the other fields are unchanged, and no exception is raised for files
  under the root.
\<close>

theorem filter_files_keeps:
  assumes "\<forall>f \<in> set (files fm). under_root fm f"
  shows "\<exists>fm'. filter_files fm = Inr fm' \<and> fm' = fm\<lparr>files := files fm'\<rparr>
    \<and> files fm' = filter
      (\<lambda>f. (include_names fm = None \<or> any_in (the (include_names fm)) (rel_name fm f))
          \<and> (exclude_names fm = None \<or> \<not> any_in (the (exclude_names fm)) (rel_name fm f)))
      (files fm)"
proof -
  have eq: "(\<lambda>f. (case include_names fm of None \<Rightarrow> True | Some inc \<Rightarrow> any_in inc (rel_name fm f))
          \<and> (case exclude_names fm of None \<Rightarrow> True | Some exc \<Rightarrow> \<not> any_in exc (rel_name fm f)))
    = (\<lambda>f. (include_names fm = None \<or> any_in (the (include_names fm)) (rel_name fm f))
          \<and> (exclude_names fm = None \<or> \<not> any_in (the (exclude_names fm)) (rel_name fm f)))"
    by (auto simp: fun_eq_iff split: option.splits)
  show ?thesis
    unfolding filter_files_under_root [OF assms] eq by simp
qed

theorem filter_files_keeps_witness:
  "under_root fm_x [''data'', ''x_train.ext''] \<and> under_root fm_x [''data'', ''x_val.ext'']
   \<and> filter_files fm_x = Inr (fm_x\<lparr>files := [[''data'', ''x_train.ext'']]\<rparr>)"
proof -
  have u: "under_root fm_x [''data'', ''x_train.ext'']" "under_root fm_x [''data'', ''x_val.ext'']"
    by (simp_all add: fm_x_def under_root_def Path_def)
  have f: "files fm_x = [[''data'', ''x_train.ext''], [''data'', ''x_val.ext'']]"
    "include_names fm_x = Some [''x'']" "exclude_names fm_x = Some [''val'']"
    by (simp_all add: fm_x_def)
  have h: "\<forall>f \<in> set (files fm_x). under_root fm_x f"
    using u by (simp add: f)
  have r1: "rel_name fm_x [''data'', ''x_train.ext''] = ''x_train.ext''"
    by (simp add: rel_name_def fm_x_def Path_def py_str_def is_anchor_def)
  have r2: "rel_name fm_x [''data'', ''x_val.ext''] = ''x_val.ext''"
    by (simp add: rel_name_def fm_x_def Path_def py_str_def is_anchor_def)
  from filter_files_keeps [OF h] obtain fm' where
    1: "filter_files fm_x = Inr fm'" and 2: "fm' = fm_x\<lparr>files := files fm'\<rparr>" and
    3: "files fm' = filter
      (\<lambda>f. (include_names fm_x = None \<or> any_in (the (include_names fm_x)) (rel_name fm_x f))
          \<and> (exclude_names fm_x = None \<or> \<not> any_in (the (exclude_names fm_x)) (rel_name fm_x f)))
      (files fm_x)" by blast
  from 3 have "files fm' = [[''data'', ''x_train.ext'']]"
    by (simp add: f r1 r2 any_in_def)
  with 1 2 have "filter_files fm_x = Inr (fm_x\<lparr>files := [[''data'', ''x_train.ext'']]\<rparr>)"
    by simp
  with u show ?thesis by blast
qed

lemma natsorted_Nil [simp]: "natsorted k [] = []"
  by (simp add: natsorted_def)

lemma filter_files_no_files:
  "files fm = [] \<Longrightarrow> filter_files fm = Inr fm"
  using filter_files_under_root [of fm] by simp


lemma chunks_text:
  assumes "t \<noteq> []" "\<forall>c \<in> set t. \<not> is_digit c" "v = [] \<or> is_digit (hd v)"
  shows "chunks (t @ v) = Txt t # chunks v"
proof (cases t)
  case Nil
  with assms show ?thesis by simp
next
  case (Cons c cs)
  have tw: "takeWhile (\<lambda>d. \<not> is_digit d) v = []" "dropWhile (\<lambda>d. \<not> is_digit d) v = v"
    using assms(3) by (cases v; simp)+
  from Cons assms have "takeWhile (\<lambda>d. \<not> is_digit d) (cs @ v) = cs"
    "dropWhile (\<lambda>d. \<not> is_digit d) (cs @ v) = v"
    by (simp_all add: takeWhile_append2 dropWhile_append2 tw)
  with Cons assms show ?thesis by simp
qed

lemma chunks_number:
  assumes "ds \<noteq> []" "\<forall>c \<in> set ds. is_digit c" "u = [] \<or> \<not> is_digit (hd u)"
  shows "chunks (ds @ u) = Num (int_of_digits ds) # chunks u"
proof (cases ds)
  case Nil
  with assms show ?thesis by simp
next
  case (Cons c cs)
  have tw: "takeWhile is_digit u = []" "dropWhile is_digit u = u"
    using assms(3) by (cases u; simp)+
  from Cons assms have "takeWhile is_digit (cs @ u) = cs" "dropWhile is_digit (cs @ u) = u"
    by (simp_all add: takeWhile_append2 dropWhile_append2 tw)
  with Cons assms show ?thesis by simp
qed

lemma natsort_key_text_number:
  assumes "t \<noteq> []" "\<forall>c \<in> set t. \<not> is_digit c" "ds \<noteq> []" "\<forall>c \<in> set ds. is_digit c"
    "u = [] \<or> \<not> is_digit (hd u)"
  shows "natsort_key (t @ ds @ u) = Txt t # Num (int_of_digits ds) # chunks u"
proof -
  from assms have "ds @ u = [] \<or> is_digit (hd (ds @ u))"
    by (cases ds) simp_all
  with assms have "chunks (t @ ds @ u) = Txt t # chunks (ds @ u)"
    by (intro chunks_text)
  with assms show ?thesis
    by (simp add: natsort_key_def chunks_number)
qed

lemma natsort_numeric_order:
  assumes "t \<noteq> []" "\<forall>c \<in> set t. \<not> is_digit c"
    "ds \<noteq> []" "\<forall>c \<in> set ds. is_digit c" "es \<noteq> []" "\<forall>c \<in> set es. is_digit c"
    "u = [] \<or> \<not> is_digit (hd u)"
  shows "(natsort_key (t @ ds @ u) < natsort_key (t @ es @ u))
           = (int_of_digits ds < int_of_digits es)"
  using assms by (auto simp: natsort_key_text_number less_chunk_def)








text \<open>
  C3. For a non-empty extension and root, the glob handed to pathlib is \<^verbatim>\<open>*\<close>
  followed by the extension when no pattern is given, \<^verbatim>\<open>*\<close> followed by the pattern
  and the extension when the pattern holds no \<^verbatim>\<open>*\<close>, and the pattern as it is
  followed by the extension when it holds one; the files are what the scan of that
  glob yields, in natural order, and what pathlib raises for that glob is raised.
\<close>

theorem collect_files_glob:
  assumes "file_type fm \<noteq> []" and "path fm \<noteq> []"
  shows "collect_files fs fm =
    (let g = (case pattern fm of None \<Rightarrow> ''*'' @ file_type fm
              | Some p \<Rightarrow> if CHR ''*'' \<in> set p then p @ file_type fm
                          else ''*'' @ p @ file_type fm)
     in case glob_error (recursive fm) g of
          Some e \<Rightarrow> Inl e
        | None \<Rightarrow>
            Inr (fm\<lparr>files := natsorted name (map (\<lambda>rel. Path (path fm) @ rel)
                               (fs (recursive fm) (path fm) g))\<rparr>))"
  using assms
  by (cases "pattern fm")
     (simp_all add: collect_files_cases effective_pattern_def Let_def cong: option.case_cong)

theorem collect_files_glob_witness:
  "file_type fm_p \<noteq> [] \<and> path fm_p \<noteq> []
   \<and> collect_files fs_ex fm_p = Inr (fm_p\<lparr>files := [[''data'', ''s_0000.png'']]\<rparr>)"
proof -
  have h: "file_type fm_p \<noteq> []" "path fm_p \<noteq> []"
    by (simp_all add: fm_p_def)
  have g: "glob_error False ''*_0000.png'' = None"
    by code_simp
  have n: "natsorted name [[''data'', ''s_0000.png'']] = [[''data'', ''s_0000.png'']]"
    by (simp add: natsorted_def)
  from collect_files_glob [OF h, of fs_ex] h g n show ?thesis
    by (simp add: fm_p_def fs_ex_def Path_def)
qed



text \<open>
  C8, as the code has it. With an empty extension or an empty root the locator
  returns the empty file list and raises nothing, whatever the other arguments are.
  With a glob that pathlib accepts, a scan without a match, as for a root that does
  not exist, gives the empty file list and raises nothing. With a glob that pathlib
  refuses, the locator raises what pathlib raises.
\<close>

theorem empty_fileset_no_error:
  "(ft = [] \<or> p = []
     \<longrightarrow> FileManager_init fs p ft pat inc exc r
           = Inr \<lparr>path = p, file_type = ft, pattern = pat, include_names = inc,
                  exclude_names = exc, recursive = r, files = []\<rparr>)
   \<and> (glob_error r (effective_pattern pat @ ft) = None
        \<and> fs r p (effective_pattern pat @ ft) = []
     \<longrightarrow> FileManager_init fs p ft pat inc exc r
           = Inr \<lparr>path = p, file_type = ft, pattern = pat, include_names = inc,
                  exclude_names = exc, recursive = r, files = []\<rparr>)
   \<and> (ft \<noteq> [] \<and> p \<noteq> [] \<and> glob_error r (effective_pattern pat @ ft) = Some e
     \<longrightarrow> FileManager_init fs p ft pat inc exc r = Inl e)"
proof (intro conjI impI)
  let ?fm = "\<lparr>path = p, file_type = ft, pattern = pat, include_names = inc,
        exclude_names = exc, recursive = r, files = []\<rparr>"
  {
    assume "ft = [] \<or> p = []"
    then have "collect_files fs ?fm = Inr ?fm"
      by (auto simp: collect_files_cases)
    then show "FileManager_init fs p ft pat inc exc r = Inr ?fm"
      by (simp add: FileManager_init_def filter_files_no_files)
  next
    assume "glob_error r (effective_pattern pat @ ft) = None
      \<and> fs r p (effective_pattern pat @ ft) = []"
    then have "collect_files fs ?fm = Inr ?fm"
      by (auto simp: collect_files_cases)
    then show "FileManager_init fs p ft pat inc exc r = Inr ?fm"
      by (simp add: FileManager_init_def filter_files_no_files)
  next
    assume "ft \<noteq> [] \<and> p \<noteq> [] \<and> glob_error r (effective_pattern pat @ ft) = Some e"
    then have "collect_files fs ?fm = Inl e"
      by (auto simp: collect_files_cases)
    then show "FileManager_init fs p ft pat inc exc r = Inl e"
      by (simp add: FileManager_init_def)
  }
qed

theorem empty_fileset_no_error_witness:
  "FileManager_init fs_ex ''data'' [] (Some ''/*'') (Some [''x'']) None True
     = Inr \<lparr>path = ''data'', file_type = [], pattern = Some ''/*'', include_names = Some [''x''],
            exclude_names = None, recursive = True, files = []\<rparr>
   \<and> FileManager_init fs_ex [] ''.ext'' None None (Some [''val'']) False
     = Inr \<lparr>path = [], file_type = ''.ext'', pattern = None, include_names = None,
            exclude_names = Some [''val''], recursive = False, files = []\<rparr>
   \<and> FileManager_init fs_ex ''missing'' ''.ext'' None None None False
     = Inr \<lparr>path = ''missing'', file_type = ''.ext'', pattern = None, include_names = None,
            exclude_names = None, recursive = False, files = []\<rparr>
   \<and> FileManager_init fs_ex ''missing'' ''.ext'' (Some ''**'') None None True
     = Inl ValueError"
proof -
  have e: "glob_error False (effective_pattern None @ ''.ext'') = None"
    "fs_ex False ''missing'' (effective_pattern None @ ''.ext'') = []"
    "glob_error True (effective_pattern (Some ''**'') @ ''.ext'') = Some ValueError"
    by code_simp+
  from empty_fileset_no_error [where ft = "[]" and p = "''data''" and fs = fs_ex
        and pat = "Some ''/*''" and inc = "Some [''x'']" and exc = None and r = True]
    empty_fileset_no_error [where ft = "''.ext''" and p = "[]" and fs = fs_ex
        and pat = None and inc = None and exc = "Some [''val'']" and r = False]
    empty_fileset_no_error [where ft = "''.ext''" and p = "''missing''" and fs = fs_ex
        and pat = None and inc = None and exc = None and r = False]
    empty_fileset_no_error [where ft = "''.ext''" and p = "''missing''" and fs = fs_ex
        and pat = "Some ''**''" and inc = None and exc = None and r = True and e = ValueError]
    e
  show ?thesis by simp
qed

text \<open>
  A root that does not exist and a scan without a match do not keep the locator from
  raising: pathlib refuses the glob \<^verbatim>\<open>/*.ext\<close> before it looks at the directory.
\<close>

theorem empty_fileset_no_error_counterexample:
  "fs_ex False ''missing'' ''/*.ext'' = []
   \<and> FileManager_init fs_ex ''missing'' ''.ext'' (Some ''/*'') None None False
       = Inl NotImplementedError"
  by code_simp

text \<open>
  C9. \<^verbatim>\<open>get_name\<close> returns what \<^verbatim>\<open>name_from_path\<close> returns on the same arguments,
  the raised exception included.
\<close>

theorem get_name_alias:
  "get_name fm file with_file_type = name_from_path fm file with_file_type"
  by (simp add: get_name_def)

theorem get_name_alias_witness:
  "get_name fm_x (FileInt (- 1)) False = Inr ''x_val''
   \<and> get_name fm_x (FileStr ''data/sub/x.ext'') True = Inr ''sub/x.ext''
   \<and> get_name fm_x (FileInt 2) True = Inl IndexError
   \<and> get_name fm_x (FileStr ''other/x.ext'') True = Inl ValueError"
  unfolding get_name_alias by code_simp

subsection \<open>NumPy archives\<close>

lemma str_of_nat_0: "str_of_nat 0 = ''0''"
  by code_simp

lemma name_args_single: "name_args 0 [a] [] = Inr [(''arr_0'', a)]"
  by (simp add: Let_def str_of_nat_0)

lemma try_map_write_default:
  "try_map (write_array truthy None) members = Inr members"
  by (induction members) (auto simp: write_array_def split: ndarray.splits)

lemma try_map_read_numeric:
  "\<forall>kv \<in> set members. \<not> is_object (snd kv) \<Longrightarrow> try_map read_array members = Inr members"
  by (induction members) (auto simp: read_array_def split: ndarray.splits)

lemma bind_kwargs_plain:
  assumes "map_of d ''file'' = None" and "map_of d ''allow_pickle'' = None"
  shows "bind_kwargs d = Inr (None, d)"
proof -
  from assms(2) have "\<forall>kv \<in> set d. fst kv \<noteq> ''allow_pickle''"
    by (metis map_of_eq_None_iff image_eqI)
  then have "filter (\<lambda>kv. fst kv \<noteq> ''allow_pickle'') d = d"
    by simp
  with assms show ?thesis
    by (simp add: bind_kwargs_def)
qed

lemma save_npz_array:
  "save_npz truthy (Array a) p compress st = Inr (st(npz_filename p \<mapsto> [(''arr_0'', a)]))"
  by (simp add: save_npz_def np_savez_def np_savez_compressed_def name_args_single
      try_map_write_default del: name_args.simps(2) try_map.simps)

lemma save_npz_dict:
  assumes "map_of d ''file'' = None" and "map_of d ''allow_pickle'' = None"
  shows "save_npz truthy (Dict d) p compress st = Inr (st(npz_filename p \<mapsto> d))"
  by (simp add: save_npz_def np_savez_def np_savez_compressed_def bind_kwargs_plain [OF assms]
      try_map_write_default)

text \<open>
  C10, as the code has it. \<^verbatim>\<open>save_npz\<close> accepts a bare array as well as a
  dictionary, compressed or not, and writes the array under the key \<^verbatim>\<open>arr_0\<close>;
  \<^verbatim>\<open>load_npz\<close> on the written file returns the dictionary with exactly that array
  when the array holds no Python objects, and raises ValueError when it does. A
  dictionary without the keys \<^verbatim>\<open>file\<close> and \<^verbatim>\<open>allow_pickle\<close> is written under its own
  keys and loads back in the same way; a dictionary with the key \<^verbatim>\<open>file\<close> is refused
  with TypeError. The written file is the given path when it ends in \<^verbatim>\<open>.npz\<close>.
\<close>

theorem save_npz_roundtrip:
  "save_npz truthy (Array a) p compress st = Inr (st(npz_filename p \<mapsto> [(''arr_0'', a)]))
   \<and> (\<not> is_object a
        \<longrightarrow> load_npz (npz_filename p) (st(npz_filename p \<mapsto> [(''arr_0'', a)]))
              = Inr ([(''arr_0'', a)], []))
   \<and> (is_object a
        \<longrightarrow> load_npz (npz_filename p) (st(npz_filename p \<mapsto> [(''arr_0'', a)]))
              = Inl ValueError)
   \<and> (map_of d ''file'' = None \<and> map_of d ''allow_pickle'' = None
        \<longrightarrow> save_npz truthy (Dict d) p compress st = Inr (st(npz_filename p \<mapsto> d)))
   \<and> ((\<forall>kv \<in> set d. \<not> is_object (snd kv))
        \<longrightarrow> load_npz (npz_filename p) (st(npz_filename p \<mapsto> d)) = Inr (d, []))
   \<and> (map_of d ''file'' \<noteq> None
        \<longrightarrow> save_npz truthy (Dict d) p compress st = Inl TypeError)
   \<and> (drop (length p - 4) p = ''.npz'' \<longrightarrow> npz_filename p = p)"
proof (intro conjI impI)
  show "save_npz truthy (Array a) p compress st = Inr (st(npz_filename p \<mapsto> [(''arr_0'', a)]))"
    by (rule save_npz_array)
next
  assume "\<not> is_object a"
  then have "try_map read_array [(''arr_0'', a)] = Inr [(''arr_0'', a)]"
    by (intro try_map_read_numeric) simp
  then show "load_npz (npz_filename p) (st(npz_filename p \<mapsto> [(''arr_0'', a)]))
      = Inr ([(''arr_0'', a)], [])"
    by (simp add: load_npz_def del: try_map.simps)
next
  assume "is_object a"
  then show "load_npz (npz_filename p) (st(npz_filename p \<mapsto> [(''arr_0'', a)])) = Inl ValueError"
    by (cases a) (simp_all add: load_npz_def read_array_def)
next
  assume "map_of d ''file'' = None \<and> map_of d ''allow_pickle'' = None"
  then show "save_npz truthy (Dict d) p compress st = Inr (st(npz_filename p \<mapsto> d))"
    by (simp add: save_npz_dict)
next
  assume "\<forall>kv \<in> set d. \<not> is_object (snd kv)"
  then show "load_npz (npz_filename p) (st(npz_filename p \<mapsto> d)) = Inr (d, [])"
    by (simp add: load_npz_def try_map_read_numeric)
next
  assume "map_of d ''file'' \<noteq> None"
  then show "save_npz truthy (Dict d) p compress st = Inl TypeError"
    by (simp add: save_npz_def bind_kwargs_def)
next
  assume "drop (length p - 4) p = ''.npz''"
  then show "npz_filename p = p"
    by (simp add: npz_filename_def)
qed

theorem save_npz_roundtrip_witness:
  "save_npz truthy_ex (Array (Numeric [1, 2, 3])) ''numpy_f.npz'' True Map.empty
     = Inr [''numpy_f.npz'' \<mapsto> [(''arr_0'', Numeric [1, 2, 3])]]
   \<and> save_npz truthy_ex (Array (Numeric [1, 2, 3])) ''numpy_f.npz'' False Map.empty
     = Inr [''numpy_f.npz'' \<mapsto> [(''arr_0'', Numeric [1, 2, 3])]]
   \<and> load_npz ''numpy_f.npz'' [''numpy_f.npz'' \<mapsto> [(''arr_0'', Numeric [1, 2, 3 :: int])]]
     = Inr ([(''arr_0'', Numeric [1, 2, 3])], [])
   \<and> save_npz truthy_ex (Dict [(''data'', Numeric [4])]) ''numpy_f.npz'' True Map.empty
     = Inr [''numpy_f.npz'' \<mapsto> [(''data'', Numeric [4])]]
   \<and> load_npz ''numpy_f.npz'' [''numpy_f.npz'' \<mapsto> [(''data'', Numeric [4 :: int])]]
     = Inr ([(''data'', Numeric [4])], [])"
proof -
  have n: "npz_filename ''numpy_f.npz'' = ''numpy_f.npz''"
    by (simp add: npz_filename_def)
  from save_npz_roundtrip [where truthy = truthy_ex and a = "Numeric [1, 2, 3]"
      and p = "''numpy_f.npz''" and compress = True and st = Map.empty
      and d = "[(''data'', Numeric [4])]"]
    save_npz_roundtrip [where truthy = truthy_ex and a = "Numeric [1, 2, 3]"
      and p = "''numpy_f.npz''" and compress = False and st = Map.empty
      and d = "[(''data'', Numeric [4])]"]
  show ?thesis
    unfolding n by simp
qed

text \<open>
  Not every dictionary is stored under its own keys, and not every array comes back:
  the key \<^verbatim>\<open>file\<close> makes the call fail, the key \<^verbatim>\<open>allow_pickle\<close> is not written, and
  an array of Python objects is written but not read.
\<close>

theorem save_npz_roundtrip_counterexample:
  "save_npz truthy_ex (Dict [(''file'', Numeric [1])]) ''numpy_f.npz'' True Map.empty
     = Inl TypeError
   \<and> save_npz truthy_ex (Dict [(''allow_pickle'', Numeric [1]), (''data'', Numeric [4])])
         ''numpy_f.npz'' False Map.empty
     = Inr [''numpy_f.npz'' \<mapsto> [(''data'', Numeric [4])]]
   \<and> save_npz truthy_ex (Array (Object [1])) ''numpy_f.npz'' True Map.empty
     = Inr [''numpy_f.npz'' \<mapsto> [(''arr_0'', Object [1])]]
   \<and> load_npz ''numpy_f.npz'' [''numpy_f.npz'' \<mapsto> [(''arr_0'', Object [1 :: int])]]
     = Inl ValueError"
  by (simp add: save_npz_def np_savez_def np_savez_compressed_def bind_kwargs_def
      name_args_single load_npz_def read_array_def write_array_def npz_filename_def
      del: name_args.simps(2))

subsection \<open>Configuration verification\<close>

lemma verify_layer_verdict:
  "verify_layer layer_cfg = Inr (ok, errs) \<Longrightarrow> ok = (errs = [])"
  by (auto simp: verify_layer_def Let_def split: if_splits sum.splits)

lemma verify_layer_without_type:
  assumes "map_of layer_cfg ''type'' = None"
  shows "verify_layer layer_cfg = Inl KeyError"
proof -
  from assms have g: "dict_get layer_cfg ''type'' VNone = VNone"
    by (simp add: dict_get_def)
  from assms have i: "dict_item layer_cfg ''type'' = Inl KeyError"
    by (simp add: dict_item_def)
  show ?thesis
    by (simp add: verify_layer_def Let_def g i IMAGE_TYPES_def LABEL_TYPES_def)
qed

lemma verify_layer_with_type:
  assumes "map_of layer_cfg ''type'' = Some ty"
  shows "\<exists>errs. verify_layer layer_cfg = Inr (errs = [], errs)
    \<and> (\<forall>req \<in> set [''name'', ''path'', ''file_type''].
          \<not> has_key req layer_cfg \<longrightarrow> Missing req \<in> set errs)"
proof -
  from assms have i: "dict_item layer_cfg ''type'' = Inr ty"
    by (simp add: dict_item_def)
  show ?thesis
    by (simp add: verify_layer_def Let_def i missing_def)
qed

lemma verify_layer_image:
  assumes "map_of layer_cfg ''type'' = Some (VStr ''Image'')"
  shows "\<exists>errs. verify_layer layer_cfg = Inr (errs = [], errs)
    \<and> (Missing ''channels'' \<in> set errs) = (\<not> has_key ''channels'' layer_cfg)
    \<and> (BadChannels \<in> set errs) = (\<not> isinstance_int (dict_get layer_cfg ''channels'' VNone))"
proof -
  from assms have g: "dict_get layer_cfg ''type'' VNone = VStr ''Image''"
    by (simp add: dict_get_def)
  show ?thesis
    by (simp add: verify_layer_def Let_def g IMAGE_TYPES_def missing_def)
qed

lemma verify_layer_label:
  assumes "map_of layer_cfg ''type'' = Some ty" and "ty \<in> set LABEL_TYPES"
  shows "\<exists>errs. verify_layer layer_cfg = Inr (errs = [], errs)
    \<and> (Missing ''classes'' \<in> set errs) = (\<not> has_key ''classes'' layer_cfg)
    \<and> (BadClasses \<in> set errs) = (\<not> isinstance_int (dict_get layer_cfg ''classes'' VNone))"
proof -
  from assms have g: "dict_get layer_cfg ''type'' VNone = ty"
    by (simp add: dict_get_def)
  from assms(2) have n: "ty \<notin> set IMAGE_TYPES"
    by (auto simp: IMAGE_TYPES_def LABEL_TYPES_def)
  show ?thesis
    using assms(2) n by (simp add: verify_layer_def Let_def g missing_def)
qed

text \<open>
  C7. A layer mapping without the field \<^verbatim>\<open>type\<close> is not reported: \<^verbatim>\<open>verify_layer\<close>
  notes the missing field and then raises KeyError while it builds the message for
  an unknown type, so neither a verdict nor the collected errors are returned.
\<close>

theorem verify_layer_missing_type_raises:
  "verify_layer layer_no_type = Inl KeyError"
  by (rule verify_layer_without_type) (simp add: layer_no_type_def)

theorem verify_layer_missing_type_raises_witness:
  "(case verify_layer layer_no_type of Inl e \<Rightarrow> e = KeyError | Inr r \<Rightarrow> False)
   \<and> verify_layer layer_img = Inr (True, [])
   \<and> verify_layer (layer_no_type @ [(''type'', VNone)])
       = Inr (False, [UnknownType])"
proof -
  have a: "verify_layer layer_img = Inr (True, [])"
    by code_simp
  have b: "verify_layer (layer_no_type @ [(''type'', VNone)]) = Inr (False, [UnknownType])"
    by code_simp
  from verify_layer_missing_type_raises a b show ?thesis
    by simp
qed





text \<open>
  C6. A split file that holds a single mapping is one fold: \<^verbatim>\<open>verify_config\<close> wraps it
  in a list, counts one fold and visits fold 0 only, and the fold selection without
  an index returns that mapping. A fold index that is not below the number of folds
  (or is negative) makes the fold selection fail with FoldIndexOutOfRange; an index
  in range selects that fold.
\<close>

theorem single_mapping_one_fold:
  "load_splits (Some (VDict kvs)) = (Some [VDict kvs], 1)
   \<and> fold_range (Some (VDict kvs)) = [0]
   \<and> select_fold (VDict kvs) None = Inr (VDict kvs)
   \<and> (\<not> (0 \<le> i \<and> i < int (snd (load_splits (Some loaded))))
        \<longrightarrow> select_fold loaded (Some i) = Inl FoldIndexOutOfRange)
   \<and> (0 \<le> i \<and> i < int (length xs) \<longrightarrow> select_fold (VList xs) (Some i) = Inr (xs ! nat i))"
  by (simp add: load_splits_def fold_range_def select_fold_def Let_def)

theorem single_mapping_one_fold_witness:
  "load_splits (Some splits_one) = (Some [splits_one], 1)
   \<and> fold_range (Some splits_one) = [0]
   \<and> select_fold splits_one None = Inr splits_one
   \<and> select_fold splits_one (Some 1) = Inl FoldIndexOutOfRange
   \<and> select_fold (VList [splits_one, VDict []]) (Some 2) = Inl FoldIndexOutOfRange
   \<and> select_fold (VList [splits_one, VDict []]) (Some (- 1)) = Inl FoldIndexOutOfRange
   \<and> select_fold (VList [splits_one, VDict []]) (Some 1) = Inr (VDict [])"
proof -
  have l: "snd (load_splits (Some splits_one)) = 1"
    "snd (load_splits (Some (VList [splits_one, VDict []]))) = 2"
    by (simp_all add: load_splits_def splits_one_def)
  from single_mapping_one_fold [of "[(''train'', VList [VStr ''_0'', VStr ''_2''])]" 1 splits_one "[splits_one, VDict []]"]
    single_mapping_one_fold [of "[]" 2 "VList [splits_one, VDict []]" "[]"]
    single_mapping_one_fold [of "[]" "- 1" "VList [splits_one, VDict []]" "[]"]
    l
  show ?thesis
    by (simp add: splits_one_def)
qed

subsection \<open>Stacked files\<close>

lemma try_map_Inr:
  "try_map f xs = Inr ys \<Longrightarrow> list_all2 (\<lambda>x y. f x = Inr y) xs ys"
  by (induction xs arbitrary: ys) (auto split: sum.splits)

lemma try_map_succeeds:
  "\<forall>x \<in> set xs. \<exists>y. f x = Inr y \<Longrightarrow> \<exists>ys. try_map f xs = Inr ys"
  by (induction xs) (auto split: sum.splits)

lemma stack_entry_Inr:
  "stack_entry f = Inr e \<Longrightarrow> e = butlast f @ [rsplit1_head CHR ''_'' (stem f)]"
  by (auto simp: stack_entry_def with_name_def split: if_splits)

lemma try_map_stack_entry:
  assumes "try_map stack_entry fl = Inr es"
  shows "es = map (\<lambda>f. butlast f @ [rsplit1_head CHR ''_'' (stem f)]) fl"
proof -
  from try_map_Inr [OF assms]
  have "list_all2 (\<lambda>f e. e = butlast f @ [rsplit1_head CHR ''_'' (stem f)]) fl es"
    by (rule list_all2_mono) (simp add: stack_entry_Inr)
  then show ?thesis
    by (induction rule: list_all2_induct) simp_all
qed

lemma distinct_remdups_adj_sorted:
  "sorted xs \<Longrightarrow> distinct (remdups_adj xs)"
  by (induction xs rule: remdups_adj.induct) (auto simp: order.strict_iff_order)

lemma distinct_np_unique: "distinct (np_unique ps)"
  by (simp add: np_unique_def distinct_remdups_adj_sorted)

lemma set_np_unique: "set (np_unique ps) = set ps"
  by (simp add: np_unique_def)

lemma rsplit1_head_none: "sep \<notin> set s \<Longrightarrow> rsplit1_head sep s = s"
  by (simp add: rsplit1_head_def)

lemma rsplit1_head_last:
  assumes "sep \<notin> set g"
  shows "rsplit1_head sep (p @ sep # g) = p"
proof -
  from assms have "dropWhile (\<lambda>c. c \<noteq> sep) (rev g @ sep # rev p)
      = dropWhile (\<lambda>c. c \<noteq> sep) (sep # rev p)"
    by (intro dropWhile_append2) auto
  then show ?thesis
    by (simp add: rsplit1_head_def)
qed

text \<open>
  C1, as the code has it. When \<^verbatim>\<open>FileManagerStacked.collect_files\<close> returns, its
  entries are exactly the located files with the name replaced by what stands before
  the last underscore of the file's stem (the name without its last suffix), each
  entry once, in natural order of the names. A stem without an underscore is kept as
  it is; a stem with one loses its last underscore-delimited group, whatever that
  group holds. It returns whenever the locator returns and every file has such an
  entry, and for no files at all it returns them unchanged.
\<close>

theorem stack_collapse:
  "(FileManagerStacked_collect_files fs fm = Inr fm' \<longrightarrow>
      (\<exists>fm0. collect_files fs fm = Inr fm0
         \<and> set (files fm') = (\<lambda>f. butlast f @ [rsplit1_head CHR ''_'' (stem f)])
                               ` set (files fm0))
      \<and> distinct (files fm')
      \<and> sorted (map (\<lambda>f. natsort_key (name f)) (files fm')))
   \<and> (CHR ''_'' \<notin> set s \<longrightarrow> rsplit1_head CHR ''_'' s = s)
   \<and> (CHR ''_'' \<notin> set g \<longrightarrow> rsplit1_head CHR ''_'' (p @ CHR ''_'' # g) = p)
   \<and> (collect_files fs fm = Inr fm1 \<and> (\<forall>f \<in> set (files fm1). \<exists>e. stack_entry f = Inr e)
        \<longrightarrow> (\<exists>fm2. FileManagerStacked_collect_files fs fm = Inr fm2))
   \<and> (collect_files fs fm = Inr fm1 \<and> files fm1 = []
        \<longrightarrow> FileManagerStacked_collect_files fs fm = Inr fm1)"
proof (intro conjI impI)
  assume a: "FileManagerStacked_collect_files fs fm = Inr fm'"
  then obtain fm0 where c: "collect_files fs fm = Inr fm0"
    by (auto simp: FileManagerStacked_collect_files_def split: sum.splits)
  let ?fl = "files fm0"
  let ?g = "\<lambda>f. butlast f @ [rsplit1_head CHR ''_'' (stem f)]"
  have "set (files fm') = ?g ` set ?fl"
  proof (cases "?fl = []")
    case True
    with a c show ?thesis
      by (auto simp: FileManagerStacked_collect_files_def)
  next
    case False
    with a c obtain es where e: "try_map stack_entry ?fl = Inr es"
      and f: "files fm' = natsorted name (np_unique es)"
      by (auto simp: FileManagerStacked_collect_files_def split: sum.splits)
    from try_map_stack_entry [OF e] f show ?thesis
      by (simp add: set_np_unique)
  qed
  with c show "\<exists>fm0. collect_files fs fm = Inr fm0 \<and> set (files fm') = ?g ` set (files fm0)"
    by blast
  show "distinct (files fm')"
  proof (cases "?fl = []")
    case True
    with a c show ?thesis
      by (auto simp: FileManagerStacked_collect_files_def)
  next
    case False
    with a c obtain es where "files fm' = natsorted name (np_unique es)"
      by (auto simp: FileManagerStacked_collect_files_def split: sum.splits)
    then show ?thesis
      by (simp add: natsorted_def distinct_np_unique)
  qed
  show "sorted (map (\<lambda>f. natsort_key (name f)) (files fm'))"
  proof (cases "?fl = []")
    case True
    with a c show ?thesis
      by (auto simp: FileManagerStacked_collect_files_def)
  next
    case False
    with a c obtain es where "files fm' = natsorted name (np_unique es)"
      by (auto simp: FileManagerStacked_collect_files_def split: sum.splits)
    then show ?thesis
      by (simp add: sorted_natsorted)
  qed
next
  assume "CHR ''_'' \<notin> set s"
  then show "rsplit1_head CHR ''_'' s = s"
    by (rule rsplit1_head_none)
next
  assume "CHR ''_'' \<notin> set g"
  then show "rsplit1_head CHR ''_'' (p @ CHR ''_'' # g) = p"
    by (rule rsplit1_head_last)
next
  assume a: "collect_files fs fm = Inr fm1 \<and> (\<forall>f \<in> set (files fm1). \<exists>e. stack_entry f = Inr e)"
  then have "\<exists>es. try_map stack_entry (files fm1) = Inr es"
    by (intro try_map_succeeds) blast
  with a show "\<exists>fm2. FileManagerStacked_collect_files fs fm = Inr fm2"
    by (auto simp: FileManagerStacked_collect_files_def)
next
  assume "collect_files fs fm = Inr fm1 \<and> files fm1 = []"
  then show "FileManagerStacked_collect_files fs fm = Inr fm1"
    by (simp add: FileManagerStacked_collect_files_def)
qed

theorem stack_collapse_witness:
  "FileManagerStacked_collect_files fs_ex fm_s
     = Inr (fm_s\<lparr>files := [[''stack'', ''plain''], [''stack'', ''s2''],
                            [''stack'', ''s10''], [''stack'', ''scan'']]\<rparr>)
   \<and> distinct [[''stack'', ''plain''], [''stack'', ''s2''],
                [''stack'', ''s10''], [''stack'', ''scan'']]
   \<and> sorted (map (\<lambda>f. natsort_key (name f))
        [[''stack'', ''plain''], [''stack'', ''s2''], [''stack'', ''s10''], [''stack'', ''scan'']])
   \<and> rsplit1_head CHR ''_'' ''plain'' = ''plain''
   \<and> rsplit1_head CHR ''_'' ''s10_0001'' = ''s10''"
proof -
  let ?L = "[[''stack'', ''plain''], [''stack'', ''s2''], [''stack'', ''s10''], [''stack'', ''scan'']]"
  have c: "FileManagerStacked_collect_files fs_ex fm_s = Inr (fm_s\<lparr>files := ?L\<rparr>)"
    by code_simp
  note t = stack_collapse [of fs_ex fm_s "fm_s\<lparr>files := ?L\<rparr>" "''plain''" "''0001''" "''s10''"]
  from t c have "distinct ?L" "sorted (map (\<lambda>f. natsort_key (name f)) ?L)"
    by simp_all
  moreover from t have "rsplit1_head CHR ''_'' ''plain'' = ''plain''"
    "rsplit1_head CHR ''_'' (''s10'' @ CHR ''_'' # ''0001'') = ''s10''"
    by simp_all
  ultimately show ?thesis
    using c by simp
qed

text \<open>
  A rule that strips numeric groups only does not hold of the code: the last
  underscore-delimited group of \<^verbatim>\<open>scan_final.png\<close> is not numeric and is stripped
  all the same.
\<close>

theorem stack_collapse_counterexample:
  "stack_entry [''stack'', ''scan_final.png''] = Inr [''stack'', ''scan'']
   \<and> stack_entry [''stack'', ''scan_final.png''] \<noteq> Inr [''stack'', ''scan_final'']
   \<and> FileManagerStacked_collect_files (\<lambda>r root pat. [[''scan_final.png'']]) fm_s
       = Inr (fm_s\<lparr>files := [[''stack'', ''scan'']]\<rparr>)"
  by code_simp

subsection \<open>Natural keys\<close>

text \<open>
  Every key starts with a text chunk and alternates from there, so the sort compares
  a text chunk with a text chunk and a number with a number only, as Python must.
\<close>

lemma chunks_alternating:
  "s \<noteq> [] \<Longrightarrow> alternating (\<not> is_digit (hd s)) (chunks s)"
proof (induction s rule: chunks.induct)
  case 1
  then show ?case by simp
next
  case (2 c cs)
  show ?case
  proof (cases "is_digit c")
    case True
    let ?r = "dropWhile is_digit cs"
    have "alternating True (chunks ?r)"
    proof (cases "?r = []")
      case True
      then show ?thesis by (metis alternating.simps(1) chunks.simps(1))
    next
      case False
      then have "\<not> is_digit (hd ?r)"
        by (rule hd_dropWhile)
      with "2.IH"(1) [OF True False] show ?thesis by simp
    qed
    with True show ?thesis by simp
  next
    case False
    let ?r = "dropWhile (\<lambda>d. \<not> is_digit d) cs"
    have "alternating False (chunks ?r)"
    proof (cases "?r = []")
      case True
      then show ?thesis by (metis alternating.simps(1) chunks.simps(1))
    next
      case nonempty: False
      then have "\<not> \<not> is_digit (hd ?r)"
        by (rule hd_dropWhile)
      with "2.IH"(2) [OF False nonempty] show ?thesis by simp
    qed
    with False show ?thesis by simp
  qed
qed

lemma natsort_key_alternating: "alternating True (natsort_key s)"
proof (cases "s = []")
  case True
  then show ?thesis by (simp add: natsort_key_def)
next
  case False
  from chunks_alternating [OF False] show ?thesis
    by (cases "chunks s") (auto simp: natsort_key_def split: chunk.splits)
qed

end
